theory Spec2Isabelle
  imports Complex_Main
begin

section \<open>Shared types (execution.py)\<close>

text \<open>
  Numbers. The program computes with Python and numpy floats; the model uses \<open>real\<close>,
  so every statement below is about exact arithmetic (no rounding, no \<open>inf\<close>). The
  one place where the program itself writes \<open>NaN\<close>, the cells of the portfolio frame it
  leaves empty, has \<open>None\<close> for it. Order quantities are \<open>int\<close>, as the constructor of
  \<open>Order\<close> declares.

  Dates. A \<open>datetime.date\<close> is represented by its proleptic Gregorian ordinal
  (\<open>date.toordinal()\<close>, day 1 is Monday 0001-01-01); comparing two dates is comparing
  their ordinals.
\<close>

type_synonym date = int

datatype Action = SELL | BUY

datatype Status = OPEN | COMPLETE | CANCELLED

datatype TimeInForce = DAY | GTC | IOC | FOK

text \<open>
  The class of an order object: \<open>Order\<close> itself and its three subclasses, with the
  fields each subclass adds. \<open>StopLimitOrder\<close> derives from \<open>Order\<close>, not from
  \<open>LimitOrder\<close>.
\<close>

datatype order_kind =
    PlainOrder
  | MarketOrder
  | LimitOrder real TimeInForce
  | StopLimitOrder real real TimeInForce

record order =
  initiated_at :: date
  executed_at :: "date option"
  action :: Action
  status :: Status
  ticker :: string
  quantity :: int
  fill_price :: "real option"
  commission_paid :: real
  kind :: order_kind

text \<open>\<open>Order.__init__\<close> and the constructors of the subclasses.\<close>

definition new_order :: "order_kind \<Rightarrow> date \<Rightarrow> Action \<Rightarrow> string \<Rightarrow> int \<Rightarrow> order" where
  "new_order k dt act tk qty =
     \<lparr>initiated_at = dt, executed_at = None, action = act, status = OPEN,
      ticker = tk, quantity = qty, fill_price = None, commission_paid = 0, kind = k\<rparr>"

text \<open>The exceptions of Python and pandas that the modelled code can raise.\<close>

datatype py_error =
    KeyError string
  | IndexError
  | TypeError
  | AttributeError
  | ValueError
  | ZeroDivisionError
  | OutOfBoundsDatetime

section \<open>The ledger (stats.py)\<close>

text \<open>
  The equity curve is a pandas DataFrame: an ordered sequence of rows, each under an index
  label. The constructor passes \<open>index=["Date"]\<close>, so the label of the seeded row is the
  string \<open>"Date"\<close>; the rows written by \<open>update_on_order\<close> are labelled by a date.
\<close>

datatype index_label = StrLabel string | DateLabel date

record ledger_row =
  Date :: date
  Cash :: real
  Equity :: real
  Total_Value :: real
  Commission_Paid :: real

record StatsHandler =
  equity_curve :: "(index_label \<times> ledger_row) list"

definition StatsHandler_init :: "date \<Rightarrow> real \<Rightarrow> StatsHandler" where
  "StatsHandler_init start_date cash =
     \<lparr>equity_curve =
        [(StrLabel ''Date'',
          \<lparr>Date = start_date, Cash = cash, Equity = 0, Total_Value = cash,
           Commission_Paid = 0\<rparr>)]\<rparr>"

text \<open>\<open>df[col].iloc[-1]\<close>: the last row, \<open>IndexError\<close> on an empty frame.\<close>

definition iloc_last :: "(index_label \<times> ledger_row) list \<Rightarrow> py_error + ledger_row" where
  "iloc_last df = (if df = [] then Inl IndexError else Inr (snd (last df)))"

text \<open>
  \<open>df.loc[label] = row\<close>: every row under that label is overwritten in place; when the
  label is not in the index, the row is appended.
\<close>

definition loc_set ::
  "index_label \<Rightarrow> ledger_row \<Rightarrow> (index_label \<times> ledger_row) list
     \<Rightarrow> (index_label \<times> ledger_row) list" where
  "loc_set l r df =
     (if l \<in> fst ` set df then map (\<lambda>(k, v). if k = l then (k, r) else (k, v)) df
      else df @ [(l, r)])"

text \<open>
  \<open>StatsHandler.update_on_order\<close>. \<open>Action\<close> has two members, so the \<open>elif\<close> is the
  \<open>else\<close>. Multiplying the quantity by a \<open>fill_price\<close> that is still \<open>None\<close> raises
  \<open>TypeError\<close>. An exception leaves the frame as it was.
\<close>

definition update_on_order :: "StatsHandler \<Rightarrow> date \<Rightarrow> order \<Rightarrow> py_error + StatsHandler" where
  "update_on_order self current_date ord =
     (case iloc_last (equity_curve self) of
        Inl e \<Rightarrow> Inl e
      | Inr lst \<Rightarrow>
          let updated_cash = Cash lst - commission_paid ord;
              updated_commission = Commission_Paid lst + commission_paid ord;
              updated_equity = Equity lst
          in (case fill_price ord of
                None \<Rightarrow> Inl TypeError
              | Some fp \<Rightarrow>
                  let (updated_cash, updated_equity) =
                        (if action ord = SELL
                         then (updated_cash + real_of_int (quantity ord) * fp,
                               updated_equity - real_of_int (quantity ord) * fp)
                         else (updated_cash - real_of_int (quantity ord) * fp,
                               updated_equity + real_of_int (quantity ord) * fp))
                  in Inr (self\<lparr>equity_curve :=
                            loc_set (DateLabel current_date)
                              \<lparr>Date = current_date, Cash = updated_cash,
                               Equity = updated_equity,
                               Total_Value = updated_cash + updated_equity,
                               Commission_Paid = updated_commission\<rparr>
                              (equity_curve self)\<rparr>)))"

text \<open>
  A run of the ledger: fills applied one after the other, as \<open>process_orders\<close> does
  day after day. The first exception stops the run.
\<close>

fun apply_fills :: "StatsHandler \<Rightarrow> (date \<times> order) list \<Rightarrow> py_error + StatsHandler" where
  "apply_fills self [] = Inr self"
| "apply_fills self ((d, ord) # rest) =
     (case update_on_order self d ord of
        Inl e \<Rightarrow> Inl e
      | Inr self' \<Rightarrow> apply_fills self' rest)"

text \<open>\<open>StatsHandler.daily_stats\<close>: the latest row.\<close>

definition daily_stats :: "StatsHandler \<Rightarrow> py_error + ledger_row" where
  "daily_stats self = iloc_last (equity_curve self)"

text \<open>The ledger invariant: in every row, total value is cash plus equity.\<close>

definition ledger_consistent :: "StatsHandler \<Rightarrow> bool" where
  "ledger_consistent self =
     list_all (\<lambda>(l, r). Total_Value r = Cash r + Equity r) (equity_curve self)"

section \<open>The broker (execution.py)\<close>

text \<open>
  The day's snapshot is a DataFrame indexed by ticker; \<open>execute_orders\<close> reads two of
  its columns, \<open>"Price"\<close> (the close) and \<open>"from Open"\<close>. The tickers of the index are
  the keys of a map. The data feed returns \<open>None\<close> for a day whose file it could not
  read, and \<open>execute_orders\<close> does not test what it is given: the argument is an option,
  so that a call without a snapshot can be stated.
\<close>

record quote =
  Price :: real
  from_Open :: real

type_synonym snapshot = "string \<rightharpoonup> quote"

text \<open>
  The order book is a dictionary from action to a dictionary from status to a list of
  orders; both key sets are the whole enumeration, so it is a total function.
\<close>

record BacktestBroker =
  order_book :: "Action \<Rightarrow> Status \<Rightarrow> order list"
  commission :: "int \<Rightarrow> real \<Rightarrow> real"

definition BacktestBroker_init :: "(int \<Rightarrow> real \<Rightarrow> real) \<Rightarrow> BacktestBroker" where
  "BacktestBroker_init comm = \<lparr>order_book = (\<lambda>a s. []), commission = comm\<rparr>"

text \<open>\<open>date.weekday()\<close>: 0 is Monday, 6 is Sunday.\<close>

definition weekday :: "date \<Rightarrow> int" where
  "weekday dt = (dt + 6) mod 7"

text \<open>
  \<open>is_business_day\<close> passes the date, as text, to \<open>pandas.bdate_range\<close>, which turns it
  into a \<open>Timestamp\<close>. A timestamp counts nanoseconds in 64 bits, so only the days from
  1677-09-22 to 2262-04-11 have one; for any other date the conversion raises
  \<open>OutOfBoundsDatetime\<close>. (For years before 1000 the text that \<open>strftime\<close> produces
  depends on the platform; no theorem below is about such a date.)
\<close>

definition Timestamp_min :: date where "Timestamp_min = 612412"

definition Timestamp_max :: date where "Timestamp_max = 825914"

definition Timestamp :: "date \<Rightarrow> py_error + date" where
  "Timestamp dt =
     (if dt < Timestamp_min \<or> Timestamp_max < dt then Inl OutOfBoundsDatetime else Inr dt)"

text \<open>
  The business-day offset of pandas, which is the default frequency of \<open>bdate_range\<close>
  and knows no holiday calendar: a day is on the offset when it falls on Monday to Friday;
  adding one business day goes to the next such day; rolling forward or back moves a
  Saturday or Sunday to the Monday after or the Friday before.
\<close>

definition is_on_offset :: "date \<Rightarrow> bool" where
  "is_on_offset dt = (weekday dt < 5)"

definition next_business_day :: "date \<Rightarrow> date" where
  "next_business_day dt =
     (let wday = weekday dt
      in if wday > 4 then dt + (7 - wday)
         else if wday + 1 \<le> 4 then dt + 1
         else dt + 3)"

definition rollforward :: "date \<Rightarrow> date" where
  "rollforward dt = (if is_on_offset dt then dt else next_business_day dt)"

definition rollback :: "date \<Rightarrow> date" where
  "rollback dt = (if is_on_offset dt then dt else dt + (4 - weekday dt))"

text \<open>
  The generator behind a range of a non-fixed frequency: from the current day, yield it
  and step by one business day until the end is passed or met.
\<close>

function range_loop :: "date \<Rightarrow> date \<Rightarrow> date list" where
  "range_loop cur end =
     (if cur \<le> end
      then cur # (if cur = end then [] else range_loop (next_business_day cur) end)
      else [])"
  by pat_completeness auto
termination
proof (relation "measure (\<lambda>(cur, end). nat (end - cur))")
  show "wf (measure (\<lambda>(cur, end). nat (end - cur)))" by simp
next
  fix cur :: date and "end" :: date
  assume "cur \<le> end" and "cur \<noteq> end"
  moreover have "0 \<le> weekday cur" and "weekday cur < 7" by (simp_all add: weekday_def)
  ultimately show "((next_business_day cur, end), (cur, end))
                     \<in> measure (\<lambda>(cur, end). nat (end - cur))"
    by (simp add: next_business_day_def Let_def)
qed

declare range_loop.simps [simp del]

text \<open>
  \<open>generate_range\<close> of pandas for a start and an end: a start that is off the offset is
  rolled forward, otherwise an end that is off the offset is rolled back; an end before
  the start gives the empty range. Modelled from the documentation and the source of
  pandas.
\<close>

definition generate_range :: "date \<Rightarrow> date \<Rightarrow> date list" where
  "generate_range start end =
     (if \<not> is_on_offset start
      then let start' = rollforward start
           in if end < start' then [] else range_loop start' end
      else let end' = (if \<not> is_on_offset end then rollback end else end)
           in if end' < start then [] else range_loop start end')"

definition bdate_range :: "date \<Rightarrow> date \<Rightarrow> py_error + date list" where
  "bdate_range start end =
     (case Timestamp start of
        Inl e \<Rightarrow> Inl e
      | Inr start' \<Rightarrow>
          (case Timestamp end of
             Inl e \<Rightarrow> Inl e
           | Inr end' \<Rightarrow> Inr (generate_range start' end')))"

text \<open>\<open>is_business_day\<close>: \<open>bool(len(pd.bdate_range(dt, dt)))\<close>.\<close>

definition is_business_day :: "date \<Rightarrow> py_error + bool" where
  "is_business_day dt =
     (case bdate_range dt dt of
        Inl e \<Rightarrow> Inl e
      | Inr days \<Rightarrow> Inr (length days \<noteq> 0))"

definition verify_funds :: "BacktestBroker \<Rightarrow> int \<Rightarrow> real \<Rightarrow> real \<Rightarrow> bool" where
  "verify_funds self qty fp cash =
     (real_of_int qty * fp + commission self qty fp \<le> cash)"

text \<open>
  \<open>data.loc[ticker, column]\<close>: \<open>AttributeError\<close> when \<open>data\<close> is \<open>None\<close>, \<open>KeyError\<close>
  when the ticker is not in the index.
\<close>

definition loc :: "snapshot option \<Rightarrow> string \<Rightarrow> (quote \<Rightarrow> real) \<Rightarrow> py_error + real" where
  "loc data tk col =
     (case data of
        None \<Rightarrow> Inl AttributeError
      | Some df \<Rightarrow> (case df tk of None \<Rightarrow> Inl (KeyError tk) | Some row \<Rightarrow> Inr (col row)))"

text \<open>
  The body of the inner loop of \<open>execute_orders\<close> up to the decision: \<open>Inr None\<close> is
  \<open>continue\<close> (the order is left where it is), \<open>Inr (Some p)\<close> is a fill at price \<open>p\<close>,
  \<open>Inl e\<close> an exception. The order's date is tested before anything is looked up.

  A \<open>"from Open"\<close> of \<open>-1\<close> divides by zero. Where the frame holds Python floats the
  division raises \<open>ZeroDivisionError\<close>, and that is what the model returns. Where it holds
  numpy scalars the quotient is \<open>inf\<close> or \<open>nan\<close> and the loop goes on; \<open>real\<close> has neither
  value, so that run is outside the model. Every theorem about \<open>execute_orders\<close> whose
  statement depends on the difference assumes \<open>opens_defined\<close>: no row of the snapshot has
  a \<open>"from Open"\<close> of \<open>-1\<close>.
\<close>

definition evaluate_order ::
  "BacktestBroker \<Rightarrow> snapshot option \<Rightarrow> date \<Rightarrow> real \<Rightarrow> order \<Rightarrow> py_error + real option" where
  "evaluate_order self data current_date cash ord =
     (if initiated_at ord \<ge> current_date then Inr None
      else case loc data (ticker ord) Price of
        Inl e \<Rightarrow> Inl e
      | Inr close_price \<Rightarrow>
          (case loc data (ticker ord) from_Open of
             Inl e \<Rightarrow> Inl e
           | Inr pct \<Rightarrow>
               if 1 + pct = 0 then Inl ZeroDivisionError
               else
                 let open_price = close_price / (1 + pct)
                 in (case kind ord of
                       MarketOrder \<Rightarrow>
                         if verify_funds self (quantity ord) open_price cash
                         then Inr (Some open_price) else Inr None
                     | LimitOrder limit_price tif \<Rightarrow>
                         if verify_funds self (quantity ord) limit_price cash
                            \<and> open_price \<le> limit_price \<and> limit_price \<le> close_price
                         then Inr (Some limit_price) else Inr None
                     | _ \<Rightarrow> Inr None)))"

text \<open>The fields a fill writes into the order object.\<close>

definition filled_order :: "BacktestBroker \<Rightarrow> date \<Rightarrow> order \<Rightarrow> real \<Rightarrow> order" where
  "filled_order self current_date ord fp =
     ord\<lparr>fill_price := Some fp, executed_at := Some current_date, status := COMPLETE,
         commission_paid := commission self (quantity ord) fp\<rparr>"

text \<open>
  The rest of the body, for an order that fills: \<open>list.remove\<close> takes the first
  occurrence out of the OPEN list of the bucket being processed (\<open>ValueError\<close> if there is
  none), the order is completed and appended to the COMPLETE list and to the result.
  Python compares the objects by identity where the model compares their fields; two
  orders with the same fields are decided alike within one call, so the lists of field
  values come out the same.
\<close>

definition fill_order ::
  "BacktestBroker \<Rightarrow> Action \<Rightarrow> date \<Rightarrow> order \<Rightarrow> real \<Rightarrow> order list
     \<Rightarrow> py_error + (order list \<times> BacktestBroker)" where
  "fill_order self act current_date ord fp executed_orders =
     (if ord \<notin> set (order_book self act OPEN) then Inl ValueError
      else
        let ord' = filled_order self current_date ord fp;
            book1 = (order_book self)
                      (act := (order_book self act)
                         (OPEN := remove1 ord (order_book self act OPEN)));
            book2 = book1(act := (book1 act)(COMPLETE := book1 act COMPLETE @ [ord']))
        in Inr (executed_orders @ [ord'], self\<lparr>order_book := book2\<rparr>))"

text \<open>
  The inner loop over a copy of the OPEN list. The result is the exception or the list of
  executed orders, next to the broker as the loop left it: an exception discards the list
  but not what earlier iterations did to the book.
\<close>

fun bucket_loop ::
  "snapshot option \<Rightarrow> date \<Rightarrow> real \<Rightarrow> Action \<Rightarrow> order list
     \<Rightarrow> order list \<times> BacktestBroker \<Rightarrow> (py_error + order list) \<times> BacktestBroker" where
  "bucket_loop data current_date cash act [] (executed_orders, self) =
     (Inr executed_orders, self)"
| "bucket_loop data current_date cash act (ord # rest) (executed_orders, self) =
     (case evaluate_order self data current_date cash ord of
        Inl e \<Rightarrow> (Inl e, self)
      | Inr None \<Rightarrow> bucket_loop data current_date cash act rest (executed_orders, self)
      | Inr (Some fp) \<Rightarrow>
          (case fill_order self act current_date ord fp executed_orders of
             Inl e \<Rightarrow> (Inl e, self)
           | Inr st \<Rightarrow> bucket_loop data current_date cash act rest st))"

text \<open>The outer loop, \<open>for action in Action\<close>.\<close>

fun action_loop ::
  "snapshot option \<Rightarrow> date \<Rightarrow> real \<Rightarrow> Action list
     \<Rightarrow> order list \<times> BacktestBroker \<Rightarrow> (py_error + order list) \<times> BacktestBroker" where
  "action_loop data current_date cash [] (executed_orders, self) =
     (Inr executed_orders, self)"
| "action_loop data current_date cash (act # acts) (executed_orders, self) =
     (case bucket_loop data current_date cash act (order_book self act OPEN)
             (executed_orders, self) of
        (Inl e, self') \<Rightarrow> (Inl e, self')
      | (Inr executed_orders', self') \<Rightarrow>
          action_loop data current_date cash acts (executed_orders', self'))"

text \<open>
  Iterating an \<open>Enum\<close> class yields its members in the order of their definition:
  \<open>SELL = 1\<close> first, then \<open>BUY = 2\<close>.
\<close>

definition Action_members :: "Action list" where
  "Action_members = [SELL, BUY]"

definition execute_orders ::
  "BacktestBroker \<Rightarrow> snapshot option \<Rightarrow> date \<Rightarrow> real
     \<Rightarrow> (py_error + order list) \<times> BacktestBroker" where
  "execute_orders self data current_date cash =
     (case is_business_day current_date of
        Inl e \<Rightarrow> (Inl e, self)
      | Inr business_day \<Rightarrow>
          if \<not> business_day then (Inr [], self)
          else action_loop data current_date cash Action_members ([], self))"

text \<open>\<open>place_order\<close>: one append; the comment after it is all there is of a check.\<close>

definition place_order :: "BacktestBroker \<Rightarrow> order \<Rightarrow> BacktestBroker" where
  "place_order self ord =
     self\<lparr>order_book := (order_book self)
            (action ord := (order_book self (action ord))
               (OPEN := order_book self (action ord) OPEN @ [ord]))\<rparr>"

text \<open>
  The fills of one bucket as a function of the book at the start of the call: each order
  of the list evaluated on its own against the same broker, snapshot, date and cash.
\<close>

definition fills_of ::
  "BacktestBroker \<Rightarrow> snapshot option \<Rightarrow> date \<Rightarrow> real \<Rightarrow> order list \<Rightarrow> order list" where
  "fills_of self data current_date cash xs =
     List.map_filter
       (\<lambda>ord. case evaluate_order self data current_date cash ord of
                 Inr (Some fp) \<Rightarrow> Some (filled_order self current_date ord fp)
               | _ \<Rightarrow> None) xs"

definition opens_defined :: "snapshot option \<Rightarrow> bool" where
  "opens_defined data =
     (case data of
        None \<Rightarrow> True
      | Some df \<Rightarrow> \<forall>q \<in> ran df. 1 + from_Open q \<noteq> 0)"

definition stays_open ::
  "BacktestBroker \<Rightarrow> snapshot option \<Rightarrow> date \<Rightarrow> real \<Rightarrow> order \<Rightarrow> bool" where
  "stays_open self data current_date cash ord =
     (evaluate_order self data current_date cash ord = Inr None)"

section \<open>The holdings of the strategy (strategies/reversal.py)\<close>

text \<open>
  A row of the portfolio frame: seven columns, each a number or \<open>NaN\<close> (here \<open>None\<close>).
  Arithmetic with a \<open>NaN\<close> gives \<open>NaN\<close>, and a \<open>NaN\<close> equals nothing.
\<close>

record holding =
  pf_Price :: "real option"
  pf_Volume :: "real option"
  pf_Quantity :: "real option"
  pf_Cost :: "real option"
  pf_Market_Value :: "real option"
  pf_Gain_usd :: "real option"
  pf_Gain_pct :: "real option"

definition nan_op ::
  "(real \<Rightarrow> real \<Rightarrow> real) \<Rightarrow> real option \<Rightarrow> real option \<Rightarrow> real option" where
  "nan_op f a b =
     (case a of None \<Rightarrow> None | Some x \<Rightarrow> (case b of None \<Rightarrow> None | Some y \<Rightarrow> Some (f x y)))"

text \<open>
  The state \<open>process_orders\<close> works on: the index of the watchlist, the portfolio by row
  label (the frame is re-sorted by label after each insertion; the order of its rows
  plays no part here), the strategy's ledger and the current date.
\<close>

record Reversal =
  watchlist :: "string set"
  portfolio :: "string \<rightharpoonup> holding"
  stats :: StatsHandler
  current_date :: date

text \<open>
  The \<open>if order.ticker in self.portfolio.index\<close> block, for an order with fill price
  \<open>fp\<close>. A ticker that is not held gets a new row whatever the action, with four of the
  seven columns. The two divisions of the BUY branch are by the held quantity and by the
  order's quantity; a zero there ends the model as in \<open>evaluate_order\<close>.
\<close>

definition update_holding ::
  "(string \<rightharpoonup> holding) \<Rightarrow> order \<Rightarrow> real \<Rightarrow> py_error + (string \<rightharpoonup> holding)" where
  "update_holding pf ord fp =
     (case pf (ticker ord) of
        Some h \<Rightarrow>
          if action ord = SELL then
            let h' = h\<lparr>pf_Price := Some fp,
                       pf_Quantity := nan_op (-) (pf_Quantity h)
                                        (Some (real_of_int (quantity ord)))\<rparr>
            in Inr (if pf_Quantity h' = Some 0 then pf(ticker ord := None)
                    else pf(ticker ord \<mapsto> h'))
          else
            if pf_Quantity h = Some 0 \<or> quantity ord = 0 then Inl ZeroDivisionError
            else
              Inr (pf(ticker ord \<mapsto>
                     h\<lparr>pf_Cost := nan_op (+) (nan_op (/) (pf_Price h) (pf_Quantity h))
                                    (Some (fp / real_of_int (quantity ord))),
                       pf_Price := Some fp,
                       pf_Quantity := nan_op (+) (pf_Quantity h)
                                        (Some (real_of_int (quantity ord)))\<rparr>))
      | None \<Rightarrow>
          Inr (pf(ticker ord \<mapsto>
                 \<lparr>pf_Price = Some fp, pf_Volume = None,
                  pf_Quantity = Some (real_of_int (quantity ord)), pf_Cost = Some fp,
                  pf_Market_Value = Some (real_of_int (quantity ord) * fp),
                  pf_Gain_usd = None, pf_Gain_pct = None\<rparr>)))"

text \<open>
  One iteration of the loop of \<open>process_orders\<close>: the ticker leaves the watchlist, the
  holding is updated, the ledger is updated. An order without a fill price makes the
  iteration raise at the first arithmetic on \<open>None\<close>, which for a SELL of a held ticker is
  inside \<open>update_on_order\<close>.
\<close>

definition process_order :: "Reversal \<Rightarrow> order \<Rightarrow> py_error + Reversal" where
  "process_order self ord =
     (let self1 = (if ticker ord \<in> watchlist self
                   then self\<lparr>watchlist := watchlist self - {ticker ord}\<rparr> else self)
      in case fill_price ord of
           None \<Rightarrow>
             if ticker ord \<in> dom (portfolio self1) \<and> action ord = SELL
             then (case update_on_order (stats self1) (current_date self1) ord of
                     Inl e \<Rightarrow> Inl e
                   | Inr _ \<Rightarrow> Inl TypeError)
             else Inl TypeError
         | Some fp \<Rightarrow>
             (case update_holding (portfolio self1) ord fp of
                Inl e \<Rightarrow> Inl e
              | Inr pf \<Rightarrow>
                  (case update_on_order (stats self1) (current_date self1) ord of
                     Inl e \<Rightarrow> Inl e
                   | Inr st \<Rightarrow> Inr (self1\<lparr>portfolio := pf, stats := st\<rparr>))))"

text \<open>The loop of \<open>process_orders\<close>; the first exception ends it.\<close>

fun process_orders_loop :: "Reversal \<Rightarrow> order list \<Rightarrow> py_error + Reversal" where
  "process_orders_loop self [] = Inr self"
| "process_orders_loop self (ord # rest) =
     (case process_order self ord of
        Inl e \<Rightarrow> Inl e
      | Inr self' \<Rightarrow> process_orders_loop self' rest)"

text \<open>
  The three assignments after the loop. The first two assign to \<open>portfolio.loc[...]\<close>,
  that is to a row: a series indexed by the row labels is written into the row labelled
  \<open>"Market Value"\<close>, and then one into the row labelled \<open>"Gain ($)"\<close>. pandas aligns
  the series with the columns of the frame, so the column \<open>c\<close> of the new row gets the
  entry the series has under the label \<open>c\<close>, and \<open>NaN\<close> when no row has that label. The
  third assigns the column \<open>"Gain (%)"\<close> in every row; it divides by the cost, and a
  cost of zero ends the model as the other divisions do.
\<close>

definition series_of :: "(string \<rightharpoonup> holding) \<Rightarrow> (holding \<Rightarrow> real option) \<Rightarrow> string \<Rightarrow> real option" where
  "series_of pf f label = (case pf label of None \<Rightarrow> None | Some h \<Rightarrow> f h)"

definition row_of_series :: "(string \<Rightarrow> real option) \<Rightarrow> holding" where
  "row_of_series s =
     \<lparr>pf_Price = s ''Price'', pf_Volume = s ''Volume'', pf_Quantity = s ''Quantity'',
      pf_Cost = s ''Cost'', pf_Market_Value = s ''Market Value'',
      pf_Gain_usd = s ''Gain ($)'', pf_Gain_pct = s ''Gain (%)''\<rparr>"

definition gain_pct :: "holding \<Rightarrow> real option" where
  "gain_pct h =
     nan_op (*) (nan_op (/) (nan_op (-) (pf_Price h) (pf_Cost h)) (pf_Cost h)) (Some 100)"

definition refresh_after_fills :: "(string \<rightharpoonup> holding) \<Rightarrow> py_error + (string \<rightharpoonup> holding)" where
  "refresh_after_fills pf =
     (let pf1 = pf(''Market Value'' \<mapsto>
                    row_of_series
                      (series_of pf (\<lambda>h. nan_op (*) (pf_Price h) (pf_Quantity h))));
          pf2 = pf1(''Gain ($)'' \<mapsto>
                    row_of_series
                      (series_of pf1
                         (\<lambda>h. nan_op (-) (pf_Market_Value h)
                                 (nan_op (*) (pf_Quantity h) (pf_Cost h)))))
      in if \<exists>h \<in> ran pf2. pf_Cost h = Some 0 then Inl ZeroDivisionError
         else Inr (\<lambda>label. map_option (\<lambda>h. h\<lparr>pf_Gain_pct := gain_pct h\<rparr>) (pf2 label)))"

text \<open>\<open>Reversal.process_orders\<close>: the loop, then the three assignments.\<close>

definition process_orders :: "Reversal \<Rightarrow> order list \<Rightarrow> py_error + Reversal" where
  "process_orders self executed_orders =
     (case process_orders_loop self executed_orders of
        Inl e \<Rightarrow> Inl e
      | Inr self' \<Rightarrow>
          (case refresh_after_fills (portfolio self') of
             Inl e \<Rightarrow> Inl e
           | Inr pf \<Rightarrow> Inr (self'\<lparr>portfolio := pf\<rparr>)))"

text \<open>
  The cost basis as the specification words it, for comparison with what
  \<open>update_holding\<close> computes: the quantity-weighted average of the old cost and the fill
  price.
\<close>

definition spec_weighted_average_cost :: "real \<Rightarrow> real \<Rightarrow> real \<Rightarrow> real \<Rightarrow> real" where
  "spec_weighted_average_cost old_cost old_qty fill_px fill_qty =
     (old_cost * old_qty + fill_px * fill_qty) / (old_qty + fill_qty)"

section \<open>Example inputs\<close>

text \<open>
  Concrete dates, orders and snapshots on which the theorems below are evaluated. The
  dates are ordinals: the days of the week from Monday 2 August 2021 to Sunday 8 August
  2021, Monday 6 September 2021 (Labor Day, on which the exchanges are closed), and Monday
  3 January 1600, which no timestamp can hold.
\<close>

definition flat_fee :: "int \<Rightarrow> real \<Rightarrow> real" where
  "flat_fee qty px = 1"

definition monday :: date where "monday = 738004"

definition tuesday :: date where "tuesday = 738005"

definition wednesday :: date where "wednesday = 738006"

definition thursday :: date where "thursday = 738007"

definition friday :: date where "friday = 738008"

definition saturday :: date where "saturday = 738009"

definition sunday :: date where "sunday = 738010"

definition monday_1600 :: date where "monday_1600 = 584025"

definition labor_day :: date where "labor_day = 738039"

text \<open>Two completed orders and the ledger after both were applied on the same date.\<close>

definition fill_buy :: order where
  "fill_buy = filled_order (BacktestBroker_init flat_fee) tuesday
                (new_order MarketOrder monday BUY ''ABC'' 100) 50"

definition fill_sell :: order where
  "fill_sell = filled_order (BacktestBroker_init flat_fee) tuesday
                 (new_order MarketOrder monday SELL ''XYZ'' 10) 20"

definition ledger_after :: StatsHandler where
  "ledger_after =
     \<lparr>equity_curve =
        [(StrLabel ''Date'',
          \<lparr>Date = monday, Cash = 100000, Equity = 0, Total_Value = 100000,
           Commission_Paid = 0\<rparr>),
         (DateLabel tuesday,
          \<lparr>Date = tuesday, Cash = 95198, Equity = 4800, Total_Value = 99998,
           Commission_Paid = 2\<rparr>)]\<rparr>"

text \<open>
  Orders as the strategy constructs them, a snapshot with three tickers (\<open>XYZ\<close> opened
  at 20 and \<open>LMT\<close> at 44; \<open>QQQ\<close> is not listed), and the broker after a sequence of
  calls of \<open>place_order\<close>.
\<close>

definition order_buy :: order where
  "order_buy = new_order MarketOrder monday BUY ''ABC'' 100"

definition order_sell :: order where
  "order_sell = new_order MarketOrder monday SELL ''XYZ'' 10"

definition order_buy_xyz :: order where
  "order_buy_xyz = new_order MarketOrder monday BUY ''XYZ'' 250"

definition order_unlisted :: order where
  "order_unlisted = new_order MarketOrder monday BUY ''QQQ'' 1"

definition order_same_day :: order where
  "order_same_day = new_order MarketOrder tuesday BUY ''QQQ'' 1"

definition order_sell_unlisted :: order where
  "order_sell_unlisted = new_order MarketOrder monday SELL ''QQQ'' 1"

definition limit_45 :: order where
  "limit_45 = new_order (LimitOrder 45 GTC) monday BUY ''LMT'' 10"

definition limit_40 :: order where
  "limit_40 = new_order (LimitOrder 40 GTC) monday BUY ''LMT'' 10"

definition snap_abc_xyz :: snapshot where
  "snap_abc_xyz = [''ABC'' \<mapsto> \<lparr>Price = 50, from_Open = 0\<rparr>,
                   ''XYZ'' \<mapsto> \<lparr>Price = 22, from_Open = 1 / 10\<rparr>,
                   ''LMT'' \<mapsto> \<lparr>Price = 46, from_Open = 1 / 22\<rparr>]"

definition broker_of :: "order list \<Rightarrow> BacktestBroker" where
  "broker_of ords = foldl place_order (BacktestBroker_init flat_fee) ords"

text \<open>
  A strategy before its first fill, and one that holds 100 shares of \<open>ABC\<close> bought at
  10; the row of all \<open>NaN\<close>; two completed BUY orders for that ticker; an order that no
  validation would accept.
\<close>

definition held_abc :: holding where
  "held_abc = \<lparr>pf_Price = Some 10, pf_Volume = None, pf_Quantity = Some 100,
                pf_Cost = Some 10, pf_Market_Value = Some 1000, pf_Gain_usd = None,
                pf_Gain_pct = Some 0\<rparr>"

definition nan_row :: holding where
  "nan_row = \<lparr>pf_Price = None, pf_Volume = None, pf_Quantity = None, pf_Cost = None,
               pf_Market_Value = None, pf_Gain_usd = None, pf_Gain_pct = None\<rparr>"

definition strategy_empty :: Reversal where
  "strategy_empty = \<lparr>watchlist = {}, portfolio = Map.empty,
                      stats = StatsHandler_init monday 100000, current_date = tuesday\<rparr>"

definition strategy_holding :: Reversal where
  "strategy_holding = \<lparr>watchlist = {}, portfolio = [''ABC'' \<mapsto> held_abc],
                        stats = StatsHandler_init monday 100000, current_date = wednesday\<rparr>"

definition first_buy :: order where
  "first_buy = filled_order (BacktestBroker_init flat_fee) tuesday
                 (new_order MarketOrder monday BUY ''ABC'' 100) 10"

definition second_buy :: order where
  "second_buy = filled_order (BacktestBroker_init flat_fee) wednesday
                  (new_order MarketOrder tuesday BUY ''ABC'' 100) 20"

definition order_invalid :: order where
  "order_invalid = new_order MarketOrder monday BUY [] (- 5)"

section \<open>The ledger invariant\<close>

lemma loc_set_rows:
  "set (loc_set l r df) \<subseteq> set df \<union> {(l, r)}"
  by (auto simp: loc_set_def split: if_splits)

lemma ledger_consistent_init: "ledger_consistent (StatsHandler_init d c)"
  by (simp add: ledger_consistent_def StatsHandler_init_def)

lemma ledger_consistent_update:
  assumes "ledger_consistent self" and "update_on_order self d ord = Inr self'"
  shows "ledger_consistent self'"
proof -
  from assms(2) obtain r where
    eq: "equity_curve self' = loc_set (DateLabel d) r (equity_curve self)"
    and r: "Total_Value r = Cash r + Equity r"
    by (auto simp: update_on_order_def Let_def split: sum.splits option.splits if_splits)
  have "\<forall>x \<in> set (equity_curve self'). case x of (l, r) \<Rightarrow> Total_Value r = Cash r + Equity r"
  proof
    fix x assume "x \<in> set (equity_curve self')"
    with eq loc_set_rows have "x \<in> set (equity_curve self) \<or> x = (DateLabel d, r)"
      by fastforce
    then show "case x of (l, r) \<Rightarrow> Total_Value r = Cash r + Equity r"
      using assms(1) r by (auto simp: ledger_consistent_def list_all_iff)
  qed
  then show ?thesis by (simp add: ledger_consistent_def list_all_iff)
qed

lemma ledger_consistent_apply_fills:
  "ledger_consistent self \<Longrightarrow> apply_fills self fills = Inr self' \<Longrightarrow> ledger_consistent self'"
proof (induction fills arbitrary: self)
  case Nil
  then show ?case by simp
next
  case (Cons f fills)
  obtain d ord where f: "f = (d, ord)" by (cases f)
  with Cons.prems(2) obtain mid where
    step: "update_on_order self d ord = Inr mid" and rest: "apply_fills mid fills = Inr self'"
    by (auto split: sum.splits)
  from ledger_consistent_update [OF Cons.prems(1) step] have "ledger_consistent mid" .
  then show ?case using rest by (rule Cons.IH)
qed

section \<open>The loops of execute_orders\<close>

lemma evaluate_order_commission:
  "commission b' = commission b \<Longrightarrow>
     evaluate_order b' data d cash ord = evaluate_order b data d cash ord"
  by (simp add: evaluate_order_def verify_funds_def Let_def split: sum.splits order_kind.splits)

lemma filled_order_commission:
  "commission b' = commission b \<Longrightarrow> filled_order b' d ord p = filled_order b d ord p"
  by (simp add: filled_order_def)

lemma stays_open_commission:
  assumes "commission b' = commission b"
  shows "stays_open b' data d cash ord = stays_open b data d cash ord"
  unfolding stays_open_def using evaluate_order_commission [OF assms] by simp

lemma fills_of_commission:
  assumes "commission b' = commission b"
  shows "fills_of b' data d cash xs = fills_of b data d cash xs"
proof -
  have "evaluate_order b' = evaluate_order b"
    using assms by (intro ext) (rule evaluate_order_commission)
  moreover have "filled_order b' = filled_order b"
    using assms by (intro ext) (rule filled_order_commission)
  ultimately show ?thesis
    unfolding fills_of_def by (simp cong: sum.case_cong option.case_cong)
qed

lemma fills_of_Nil: "fills_of b data d cash [] = []"
  by (simp add: fills_of_def)

lemma fills_of_Cons_stay:
  "evaluate_order b data d cash x = Inr None \<Longrightarrow>
     fills_of b data d cash (x # xs) = fills_of b data d cash xs"
  by (simp add: fills_of_def)

lemma fills_of_Cons_fill:
  "evaluate_order b data d cash x = Inr (Some p) \<Longrightarrow>
     fills_of b data d cash (x # xs) = filled_order b d x p # fills_of b data d cash xs"
  by (simp add: fills_of_def)

lemma fills_of_append:
  "fills_of b data d cash (xs @ ys) = fills_of b data d cash xs @ fills_of b data d cash ys"
  by (induction xs) (simp_all add: fills_of_def split: sum.splits option.splits)

lemma fill_order_effect:
  assumes "fill_order b act d x p ex = Inr (ex', b')"
  shows "ex' = ex @ [filled_order b d x p]"
    and "order_book b' act OPEN = remove1 x (order_book b act OPEN)"
    and "order_book b' act COMPLETE = order_book b act COMPLETE @ [filled_order b d x p]"
    and "order_book b' act CANCELLED = order_book b act CANCELLED"
    and "\<And>a. a \<noteq> act \<Longrightarrow> order_book b' a = order_book b a"
    and "commission b' = commission b"
  using assms by (auto simp: fill_order_def Let_def split: if_splits)

lemma fill_order_defined:
  "x \<in> set (order_book b act OPEN) \<Longrightarrow> \<exists>st. fill_order b act d x p ex = Inr st"
  by (simp add: fill_order_def Let_def)
lemma bucket_loop_returns:
  assumes "bucket_loop data d cash act xs (ex, b) = (Inr ex', b')"
    and "order_book b act OPEN = kept @ xs"
    and "\<forall>k \<in> set kept. stays_open b data d cash k"
  shows "order_book b' act OPEN = kept @ filter (stays_open b data d cash) xs
       \<and> ex' = ex @ fills_of b data d cash xs
       \<and> order_book b' act COMPLETE = order_book b act COMPLETE @ fills_of b data d cash xs
       \<and> order_book b' act CANCELLED = order_book b act CANCELLED
       \<and> (\<forall>a. a \<noteq> act \<longrightarrow> order_book b' a = order_book b a)
       \<and> commission b' = commission b
       \<and> (\<forall>x \<in> set xs. \<exists>r. evaluate_order b data d cash x = Inr r)"
  using assms
proof (induction xs arbitrary: ex b kept)
  case Nil
  then show ?case by (simp add: fills_of_Nil)
next
  case (Cons x xs)
  show ?case
  proof (cases "evaluate_order b data d cash x")
    case (Inl e)
    with Cons.prems(1) show ?thesis by simp
  next
    case (Inr r)
    show ?thesis
    proof (cases r)
      case None
      with Inr have stay: "evaluate_order b data d cash x = Inr None" by simp
      from Cons.prems(1) stay have run: "bucket_loop data d cash act xs (ex, b) = (Inr ex', b')"
        by simp
      have book: "order_book b act OPEN = (kept @ [x]) @ xs" using Cons.prems(2) by simp
      have kept: "\<forall>k \<in> set (kept @ [x]). stays_open b data d cash k"
        using Cons.prems(3) stay by (simp add: stays_open_def)
      from Cons.IH [OF run book kept] stay show ?thesis
        by (simp add: fills_of_Cons_stay stays_open_def)
    next
      case (Some p)
      with Inr have fill: "evaluate_order b data d cash x = Inr (Some p)" by simp
      have xin: "x \<in> set (order_book b act OPEN)" using Cons.prems(2) by simp
      from fill_order_defined [OF xin] obtain ex1 b1 where
        fo: "fill_order b act d x p ex = Inr (ex1, b1)" by fastforce
      from Cons.prems(1) fill fo have run:
        "bucket_loop data d cash act xs (ex1, b1) = (Inr ex', b')" by simp
      note eff = fill_order_effect [OF fo]
      have xnot: "x \<notin> set kept" using Cons.prems(3) fill by (auto simp: stays_open_def)
      have book: "order_book b1 act OPEN = kept @ xs"
        using eff(2) Cons.prems(2) xnot by (simp add: remove1_append)
      have so: "stays_open b1 data d cash = stays_open b data d cash"
        using eff(6) by (intro ext) (rule stays_open_commission)
      have kept: "\<forall>k \<in> set kept. stays_open b1 data d cash k"
        using Cons.prems(3) so by simp
      have fo_eq: "fills_of b1 data d cash xs = fills_of b data d cash xs"
        using eff(6) by (rule fills_of_commission)
      have ev_eq: "evaluate_order b1 data d cash = evaluate_order b data d cash"
        using eff(6) by (intro ext) (rule evaluate_order_commission)
      have "\<not> stays_open b data d cash x" using fill by (simp add: stays_open_def)
      with Cons.IH [OF run book kept] show ?thesis
        using eff(1,3,4,5,6) fill fo_eq
        by (simp add: fills_of_Cons_fill so ev_eq)
    qed
  qed
qed


lemma bucket_loop_frame:
  assumes "bucket_loop data d cash act xs (ex, b) = (r, b')"
  shows "commission b' = commission b
       \<and> (\<forall>a. a \<noteq> act \<longrightarrow> order_book b' a = order_book b a)
       \<and> order_book b' act CANCELLED = order_book b act CANCELLED
       \<and> (\<forall>x \<in> set (order_book b act OPEN).
            (\<forall>p. evaluate_order b data d cash x \<noteq> Inr (Some p))
              \<longrightarrow> x \<in> set (order_book b' act OPEN))"
  using assms
proof (induction xs arbitrary: ex b)
  case Nil
  then show ?case by simp
next
  case (Cons x xs)
  show ?case
  proof (cases "evaluate_order b data d cash x")
    case (Inl e)
    with Cons.prems show ?thesis by simp
  next
    case (Inr v)
    show ?thesis
    proof (cases v)
      case None
      with Inr Cons.prems have "bucket_loop data d cash act xs (ex, b) = (r, b')" by simp
      then show ?thesis by (rule Cons.IH)
    next
      case (Some p)
      with Inr have fill: "evaluate_order b data d cash x = Inr (Some p)" by simp
      show ?thesis
      proof (cases "fill_order b act d x p ex")
        case (Inl e)
        with Cons.prems fill show ?thesis by simp
      next
        case (Inr st)
        obtain ex1 b1 where st: "st = (ex1, b1)" by (cases st)
        with Inr have fo: "fill_order b act d x p ex = Inr (ex1, b1)" by simp
        note eff = fill_order_effect [OF fo]
        from Cons.prems fill fo have run: "bucket_loop data d cash act xs (ex1, b1) = (r, b')"
          by simp
        note ih = Cons.IH [OF run]
        have ev_eq: "evaluate_order b1 data d cash = evaluate_order b data d cash"
          using eff(6) by (intro ext) (rule evaluate_order_commission)
        have "\<forall>y \<in> set (order_book b act OPEN).
                (\<forall>q. evaluate_order b data d cash y \<noteq> Inr (Some q))
                  \<longrightarrow> y \<in> set (order_book b' act OPEN)"
        proof (intro ballI impI)
          fix y assume y: "y \<in> set (order_book b act OPEN)"
            and nf: "\<forall>q. evaluate_order b data d cash y \<noteq> Inr (Some q)"
          from nf fill have "y \<noteq> x" by auto
          with y eff(2) have "y \<in> set (order_book b1 act OPEN)" by simp
          with ih nf ev_eq show "y \<in> set (order_book b' act OPEN)" by simp
        qed
        with ih eff(4,5,6) show ?thesis by simp
      qed
    qed
  qed
qed

lemma bucket_loop_raises:
  assumes "bucket_loop data d cash act xs (ex, b) = (Inl e, b')"
    and "order_book b act OPEN = kept @ xs"
    and "\<forall>k \<in> set kept. stays_open b data d cash k"
  shows "\<exists>x \<in> set xs. evaluate_order b data d cash x = Inl e"
  using assms
proof (induction xs arbitrary: ex b kept)
  case Nil
  then show ?case by simp
next
  case (Cons x xs)
  show ?case
  proof (cases "evaluate_order b data d cash x")
    case (Inl e0)
    with Cons.prems(1) show ?thesis by simp
  next
    case (Inr v)
    show ?thesis
    proof (cases v)
      case None
      with Inr have stay: "evaluate_order b data d cash x = Inr None" by simp
      from Cons.prems(1) stay have run: "bucket_loop data d cash act xs (ex, b) = (Inl e, b')"
        by simp
      have book: "order_book b act OPEN = (kept @ [x]) @ xs" using Cons.prems(2) by simp
      have kept: "\<forall>k \<in> set (kept @ [x]). stays_open b data d cash k"
        using Cons.prems(3) stay by (simp add: stays_open_def)
      from Cons.IH [OF run book kept] show ?thesis by simp
    next
      case (Some p)
      with Inr have fill: "evaluate_order b data d cash x = Inr (Some p)" by simp
      have xin: "x \<in> set (order_book b act OPEN)" using Cons.prems(2) by simp
      from fill_order_defined [OF xin] obtain ex1 b1 where
        fo: "fill_order b act d x p ex = Inr (ex1, b1)" by fastforce
      from Cons.prems(1) fill fo have run:
        "bucket_loop data d cash act xs (ex1, b1) = (Inl e, b')" by simp
      note eff = fill_order_effect [OF fo]
      have xnot: "x \<notin> set kept" using Cons.prems(3) fill by (auto simp: stays_open_def)
      have book: "order_book b1 act OPEN = kept @ xs"
        using eff(2) Cons.prems(2) xnot by (simp add: remove1_append)
      have so: "stays_open b1 data d cash = stays_open b data d cash"
        using eff(6) by (intro ext) (rule stays_open_commission)
      have kept: "\<forall>k \<in> set kept. stays_open b1 data d cash k"
        using Cons.prems(3) so by simp
      have ev_eq: "evaluate_order b1 data d cash = evaluate_order b data d cash"
        using eff(6) by (intro ext) (rule evaluate_order_commission)
      from Cons.IH [OF run book kept] show ?thesis by (simp add: ev_eq)
    qed
  qed
qed



lemma is_business_day_cases:
  obtains (raises) e where "is_business_day d = Inl e"
  | (closed) "is_business_day d = Inr False"
  | (trading) "is_business_day d = Inr True"
proof (cases "is_business_day d")
  case (Inl e)
  then show ?thesis by (rule raises)
next
  case (Inr v)
  then show ?thesis using closed trading by (cases v) simp_all
qed

lemma execute_orders_weekend:
  "is_business_day d = Inr False \<Longrightarrow> execute_orders b data d cash = (Inr [], b)"
  by (simp add: execute_orders_def)

lemma execute_orders_no_timestamp:
  "is_business_day d = Inl e \<Longrightarrow> execute_orders b data d cash = (Inl e, b)"
  by (simp add: execute_orders_def)

lemma execute_orders_steps:
  assumes "is_business_day d = Inr True" and "execute_orders b data d cash = (r, b')"
  obtains (sell_raises) e where
      "bucket_loop data d cash SELL (order_book b SELL OPEN) ([], b) = (Inl e, b')"
      and "r = Inl e"
  | (both_run) ex1 b1 where
      "bucket_loop data d cash SELL (order_book b SELL OPEN) ([], b) = (Inr ex1, b1)"
      and "bucket_loop data d cash BUY (order_book b1 BUY OPEN) (ex1, b1) = (r, b')"
proof (cases "bucket_loop data d cash SELL (order_book b SELL OPEN) ([], b)")
  case (Pair r1 b1)
  show ?thesis
  proof (cases r1)
    case (Inl e)
    with Pair assms have "b' = b1" and "r = Inl e"
      by (simp_all add: execute_orders_def Action_members_def)
    with Pair Inl sell_raises show ?thesis by simp
  next
    case (Inr ex1)
    obtain r2 b2 where
      run2: "bucket_loop data d cash BUY (order_book b1 BUY OPEN) (ex1, b1) = (r2, b2)"
      by (cases "bucket_loop data d cash BUY (order_book b1 BUY OPEN) (ex1, b1)")
    with Pair Inr assms have "r = r2" and "b' = b2"
      by (auto simp: execute_orders_def Action_members_def split: sum.splits)
    with Pair Inr run2 both_run show ?thesis by simp
  qed
qed

lemma execute_orders_returns:
  assumes "execute_orders b data d cash = (Inr ex, b')" and "is_business_day d = Inr True"
  shows "ex = fills_of b data d cash (order_book b SELL OPEN)
              @ fills_of b data d cash (order_book b BUY OPEN)"
    and "order_book b' act OPEN = filter (stays_open b data d cash) (order_book b act OPEN)"
    and "order_book b' act COMPLETE
           = order_book b act COMPLETE @ fills_of b data d cash (order_book b act OPEN)"
    and "x \<in> set (order_book b act OPEN) \<Longrightarrow> \<exists>v. evaluate_order b data d cash x = Inr v"
proof -
  from assms(2,1) obtain ex1 b1 where
    run1: "bucket_loop data d cash SELL (order_book b SELL OPEN) ([], b) = (Inr ex1, b1)"
    and run2: "bucket_loop data d cash BUY (order_book b1 BUY OPEN) (ex1, b1) = (Inr ex, b')"
    by (cases rule: execute_orders_steps) simp_all
  from bucket_loop_returns [OF run1, of "[]"]
  have s: "order_book b1 SELL OPEN = filter (stays_open b data d cash) (order_book b SELL OPEN)"
      "ex1 = fills_of b data d cash (order_book b SELL OPEN)"
      "order_book b1 SELL COMPLETE
         = order_book b SELL COMPLETE @ fills_of b data d cash (order_book b SELL OPEN)"
      "order_book b1 BUY = order_book b BUY"
      "commission b1 = commission b"
      "\<forall>x \<in> set (order_book b SELL OPEN). \<exists>v. evaluate_order b data d cash x = Inr v"
    by simp_all
  have ev_eq: "evaluate_order b1 data d cash = evaluate_order b data d cash"
    using s(5) by (intro ext) (rule evaluate_order_commission)
  have so: "stays_open b1 data d cash = stays_open b data d cash"
    using s(5) by (intro ext) (rule stays_open_commission)
  have fo: "\<And>xs. fills_of b1 data d cash xs = fills_of b data d cash xs"
    using s(5) by (rule fills_of_commission)
  from bucket_loop_returns [OF run2, of "[]"]
  have t: "order_book b' BUY OPEN = filter (stays_open b data d cash) (order_book b BUY OPEN)"
      "ex = ex1 @ fills_of b data d cash (order_book b BUY OPEN)"
      "order_book b' BUY COMPLETE
         = order_book b BUY COMPLETE @ fills_of b data d cash (order_book b BUY OPEN)"
      "order_book b' SELL = order_book b1 SELL"
      "\<forall>x \<in> set (order_book b BUY OPEN). \<exists>v. evaluate_order b data d cash x = Inr v"
    by (simp_all add: s(4) ev_eq so fo)
  show "ex = fills_of b data d cash (order_book b SELL OPEN)
              @ fills_of b data d cash (order_book b BUY OPEN)"
    using s(2) t(2) by simp
  show "order_book b' act OPEN = filter (stays_open b data d cash) (order_book b act OPEN)"
    using s(1) t(1,4) by (cases act) simp_all
  show "order_book b' act COMPLETE
           = order_book b act COMPLETE @ fills_of b data d cash (order_book b act OPEN)"
    using s(3) t(3,4) by (cases act) simp_all
  show "x \<in> set (order_book b act OPEN) \<Longrightarrow> \<exists>v. evaluate_order b data d cash x = Inr v"
    using s(6) t(5) by (cases act) simp_all
qed

lemma execute_orders_frame:
  assumes "execute_orders b data d cash = (r, b')"
  shows "commission b' = commission b"
    and "order_book b' act CANCELLED = order_book b act CANCELLED"
    and "x \<in> set (order_book b act OPEN) \<Longrightarrow>
           \<forall>p. evaluate_order b data d cash x \<noteq> Inr (Some p) \<Longrightarrow>
           x \<in> set (order_book b' act OPEN)"
proof -
  have "commission b' = commission b
      \<and> order_book b' act CANCELLED = order_book b act CANCELLED
      \<and> (x \<in> set (order_book b act OPEN) \<longrightarrow>
           (\<forall>p. evaluate_order b data d cash x \<noteq> Inr (Some p)) \<longrightarrow>
           x \<in> set (order_book b' act OPEN))"
  proof (cases rule: is_business_day_cases [of d])
    case (raises e)
    with assms show ?thesis by (simp add: execute_orders_def)
  next
    case closed
    with assms show ?thesis by (simp add: execute_orders_def)
  next
    case trading
    from trading assms show ?thesis
    proof (cases rule: execute_orders_steps)
      case (sell_raises e)
      from bucket_loop_frame [OF sell_raises(1)] show ?thesis by (cases act) simp_all
    next
      case (both_run ex1 b1)
      note f1 = bucket_loop_frame [OF both_run(1)]
      note f2 = bucket_loop_frame [OF both_run(2)]
      have "commission b1 = commission b" using f1 by simp
      then have ev_eq: "evaluate_order b1 data d cash = evaluate_order b data d cash"
        by (intro ext) (rule evaluate_order_commission)
      show ?thesis
      proof (cases act)
        case SELL
        with f1 f2 show ?thesis by simp
      next
        case BUY
        with f1 f2 show ?thesis by (simp add: ev_eq)
      qed
    qed
  qed
  then show "commission b' = commission b"
    and "order_book b' act CANCELLED = order_book b act CANCELLED"
    and "x \<in> set (order_book b act OPEN) \<Longrightarrow>
           \<forall>p. evaluate_order b data d cash x \<noteq> Inr (Some p) \<Longrightarrow>
           x \<in> set (order_book b' act OPEN)"
    by simp_all
qed

lemma execute_orders_raises:
  assumes "execute_orders b data d cash = (Inl e, b')" and "is_business_day d = Inr True"
  shows "\<exists>act. \<exists>x \<in> set (order_book b act OPEN). evaluate_order b data d cash x = Inl e"
proof -
  from assms(2,1) show ?thesis
  proof (cases rule: execute_orders_steps)
    case (sell_raises e')
    then have "bucket_loop data d cash SELL (order_book b SELL OPEN) ([], b) = (Inl e, b')"
      by simp
    from bucket_loop_raises [OF this, of "[]"] show ?thesis by auto
  next
    case (both_run ex1 b1)
    note r1 = bucket_loop_returns [OF both_run(1), of "[]"]
    have "commission b1 = commission b" using r1 by simp
    then have ev_eq: "evaluate_order b1 data d cash = evaluate_order b data d cash"
      by (intro ext) (rule evaluate_order_commission)
    have "order_book b1 BUY = order_book b BUY" using r1 by simp
    with bucket_loop_raises [OF both_run(2), of "[]"] ev_eq show ?thesis by auto
  qed
qed




lemma evaluate_order_missing:
  "initiated_at ord < d \<Longrightarrow> snap (ticker ord) = None \<Longrightarrow>
     evaluate_order b (Some snap) d cash ord = Inl (KeyError (ticker ord))"
  by (simp add: evaluate_order_def loc_def)

lemma evaluate_order_raises:
  assumes "evaluate_order b (Some snap) d cash ord = Inl e"
  shows "(e = KeyError (ticker ord) \<and> snap (ticker ord) = None)
       \<or> (e = ZeroDivisionError \<and> (\<exists>q. snap (ticker ord) = Some q \<and> 1 + from_Open q = 0))"
  using assms
  by (auto simp: evaluate_order_def loc_def Let_def
           split: if_splits option.splits sum.splits order_kind.splits)






section \<open>Business days\<close>

lemma weekday_range: "0 \<le> weekday d \<and> weekday d < 7"
  by (simp add: weekday_def)

lemma generate_range_single:
  "generate_range d d = (if weekday d < 5 then [d] else [])"
proof (cases "weekday d < 5")
  case True
  then show ?thesis
    by (simp add: generate_range_def is_on_offset_def range_loop.simps [of d d])
next
  case False
  with weekday_range [of d] have "d < next_business_day d"
    by (simp add: next_business_day_def Let_def)
  with False show ?thesis
    by (simp add: generate_range_def is_on_offset_def rollforward_def)
qed

lemma is_business_day_iff:
  assumes "Timestamp_min \<le> d" and "d \<le> Timestamp_max"
  shows "is_business_day d = Inr (weekday d < 5)"
  using assms
  by (simp add: is_business_day_def bdate_range_def Timestamp_def generate_range_single)

section \<open>What a single fill satisfies\<close>




section \<open>Evaluation on the example inputs\<close>

lemma example_days:
  "is_business_day monday = Inr True"
  "is_business_day tuesday = Inr True"
  "is_business_day wednesday = Inr True"
  "is_business_day thursday = Inr True"
  "is_business_day friday = Inr True"
  "is_business_day saturday = Inr False"
  "is_business_day sunday = Inr False"
  "is_business_day labor_day = Inr True"
  "is_business_day monday_1600 = Inl OutOfBoundsDatetime"
  by (simp_all add: is_business_day_def bdate_range_def Timestamp_def Timestamp_min_def
        Timestamp_max_def generate_range_single weekday_def monday_def tuesday_def
        wednesday_def thursday_def friday_def saturday_def sunday_def labor_day_def
        monday_1600_def)

lemma example_opens_defined: "opens_defined (Some snap_abc_xyz)"
  by (auto simp: opens_defined_def snap_abc_xyz_def ran_def split: if_splits)

lemmas example_days_unfolded =
  example_days [unfolded monday_def tuesday_def wednesday_def thursday_def friday_def
    saturday_def sunday_def labor_day_def monday_1600_def]

lemmas run_simps =
  execute_orders_def example_days_unfolded Action_members_def
  evaluate_order_def loc_def verify_funds_def fill_order_def filled_order_def
  place_order_def BacktestBroker_init_def new_order_def flat_fee_def Let_def
  monday_def tuesday_def wednesday_def thursday_def friday_def saturday_def sunday_def
  labor_day_def monday_1600_def broker_of_def order_buy_def order_sell_def order_buy_xyz_def order_unlisted_def
  order_same_day_def order_sell_unlisted_def limit_45_def limit_40_def snap_abc_xyz_def
  fill_buy_def fill_sell_def

lemmas strategy_simps =
  process_orders_def process_order_def update_holding_def update_on_order_def iloc_last_def
  loc_set_def refresh_after_fills_def series_of_def row_of_series_def gain_pct_def nan_op_def
  StatsHandler_init_def held_abc_def nan_row_def strategy_empty_def strategy_holding_def
  first_buy_def second_buy_def filled_order_def new_order_def BacktestBroker_init_def
  flat_fee_def Let_def spec_weighted_average_cost_def

section \<open>The claims\<close>

text \<open>
  C1. Every row of the equity curve of a ledger that was seeded by the constructor and
  then went through any sequence of fills has its Total Value equal to its Cash plus its
  Equity. (A fill that raises leaves the curve as it was, so the curves that can ever be
  observed are those after the successful prefixes of a run.)
\<close>

theorem C1_total_is_cash_plus_equity:
  "apply_fills (StatsHandler_init start_date cash) fills = Inr self \<Longrightarrow>
     \<forall>(l, r) \<in> set (equity_curve self). Total_Value r = Cash r + Equity r"
  using ledger_consistent_apply_fills [OF ledger_consistent_init]
  by (fastforce simp: ledger_consistent_def list_all_iff)

text \<open>
  The invariant on a run of two fills on the same date, the second of which overwrites
  the row the first one appended.
\<close>

theorem C1_witness:
  "apply_fills (StatsHandler_init monday 100000) [(tuesday, fill_buy), (tuesday, fill_sell)]
     = Inr ledger_after
   \<and> list_all (\<lambda>(l, r). Total_Value r = Cash r + Equity r) (equity_curve ledger_after)"
proof -
  have run: "apply_fills (StatsHandler_init monday 100000)
               [(tuesday, fill_buy), (tuesday, fill_sell)] = Inr ledger_after"
    by (simp add: StatsHandler_init_def update_on_order_def iloc_last_def loc_set_def
        fill_buy_def fill_sell_def filled_order_def new_order_def BacktestBroker_init_def
        flat_fee_def ledger_after_def Let_def)
  from C1_total_is_cash_plus_equity [OF run] run show ?thesis by (simp add: list_all_iff)
qed







text \<open>
  C5, the code at a concrete input. A first BUY of 100 shares at 10 creates the holding
  with cost 10 (and, by the assignments after the loop, a gain of 0 percent and the two
  rows of \<open>NaN\<close> labelled \<open>"Market Value"\<close> and \<open>"Gain ($)"\<close>). A second BUY of 100
  shares at 20 leaves a cost of \<open>10 / 100 + 20 / 100 = 3 / 10\<close>, where the
  quantity-weighted average of the claim is 15.
\<close>

theorem C5_code_cost_basis:
  "(case process_orders strategy_empty [first_buy] of
      Inr s \<Rightarrow> [portfolio s ''ABC'', portfolio s ''Market Value'', portfolio s ''Gain ($)'']
    | Inl e \<Rightarrow> []) = [Some held_abc, Some nan_row, Some nan_row]
   \<and> (case process_orders strategy_holding [second_buy] of
        Inr s \<Rightarrow> Option.bind (portfolio s ''ABC'') pf_Cost | Inl e \<Rightarrow> None) = Some (3 / 10)
   \<and> spec_weighted_average_cost 10 100 20 100 = 15"
proof -
  have no_zero1: "\<not> (\<exists>h \<in> ran ([''ABC'' \<mapsto> held_abc\<lparr>pf_Gain_pct := None\<rparr>,
                                 ''Market Value'' \<mapsto> nan_row, ''Gain ($)'' \<mapsto> nan_row]).
                        pf_Cost h = Some 0)"
    by (auto simp: ran_def held_abc_def nan_row_def split: if_splits)
  have no_zero2: "\<not> (\<exists>h \<in> ran ([''ABC'' \<mapsto> held_abc\<lparr>pf_Cost := Some (3 / 10),
                                   pf_Price := Some 20, pf_Quantity := Some 200\<rparr>,
                                 ''Market Value'' \<mapsto> nan_row, ''Gain ($)'' \<mapsto> nan_row]).
                        pf_Cost h = Some 0)"
    by (auto simp: ran_def held_abc_def nan_row_def split: if_splits)
  from no_zero1 no_zero2 show ?thesis
    by (simp add: strategy_simps)
qed

text \<open>
  C6 as stated fails: with a BUY order placed first and a SELL order placed second, both
  of which fill, the SELL order is executed first.
\<close>

theorem C6_counterexample:
  "fst (execute_orders (broker_of [order_buy, order_sell]) (Some snap_abc_xyz) tuesday 100000)
     = Inr [fill_sell, fill_buy]
   \<and> action fill_sell = SELL \<and> action fill_buy = BUY"
  by (simp add: run_simps)

text \<open>
  C6, amended. On a business day, with a snapshot that has no \<open>"from Open"\<close> of -1,
  the SELL bucket is processed before the BUY bucket: the result lists the fills of the
  SELL bucket, in the order of that bucket, and then those of the BUY bucket; and when an
  order of the SELL bucket raises, the call ends before anything of the BUY bucket was
  touched.
\<close>

theorem C6_sell_bucket_before_buy_bucket:
  assumes "is_business_day d = Inr True" and "execute_orders b data d cash = (r, b')"
    and "opens_defined data"
  shows "(\<forall>ex. r = Inr ex \<longrightarrow>
            ex = fills_of b data d cash (order_book b SELL OPEN)
                 @ fills_of b data d cash (order_book b BUY OPEN))
       \<and> ((\<exists>x \<in> set (order_book b SELL OPEN). \<exists>e. evaluate_order b data d cash x = Inl e)
            \<longrightarrow> (\<exists>e. r = Inl e) \<and> order_book b' BUY = order_book b BUY)"
proof (rule conjI; intro allI impI)
  fix ex assume "r = Inr ex"
  with assms(2) have "execute_orders b data d cash = (Inr ex, b')" by simp
  from execute_orders_returns(1) [OF this assms(1)]
  show "ex = fills_of b data d cash (order_book b SELL OPEN)
             @ fills_of b data d cash (order_book b BUY OPEN)" .
next
  assume bad: "\<exists>x \<in> set (order_book b SELL OPEN). \<exists>e. evaluate_order b data d cash x = Inl e"
  from assms(1,2) show "(\<exists>e. r = Inl e) \<and> order_book b' BUY = order_book b BUY"
  proof (cases rule: execute_orders_steps)
    case (sell_raises e)
    from bucket_loop_frame [OF sell_raises(1)] sell_raises(2) show ?thesis by simp
  next
    case (both_run ex1 b1)
    from bucket_loop_returns [OF both_run(1), of "[]"]
    have "\<forall>x \<in> set (order_book b SELL OPEN). \<exists>v. evaluate_order b data d cash x = Inr v"
      by simp
    with bad show ?thesis by fastforce
  qed
qed

text \<open>
  Both halves on concrete books: SELL fill before BUY fill, and a SELL order for an
  unlisted ticker that ends the call while the BUY order, which would fill, is still
  open.
\<close>

theorem C6_witness:
  "is_business_day tuesday = Inr True
   \<and> fst (execute_orders (broker_of [order_buy, order_sell]) (Some snap_abc_xyz) tuesday 100000)
       = Inr ([fill_sell] @ [fill_buy])
   \<and> evaluate_order (broker_of [order_buy, order_sell_unlisted]) (Some snap_abc_xyz) tuesday
        100000 order_sell_unlisted = Inl (KeyError ''QQQ'')
   \<and> fst (execute_orders (broker_of [order_buy, order_sell_unlisted]) (Some snap_abc_xyz)
            tuesday 100000) = Inl (KeyError ''QQQ'')
   \<and> order_book (snd (execute_orders (broker_of [order_buy, order_sell_unlisted])
                         (Some snap_abc_xyz) tuesday 100000)) BUY OPEN = [order_buy]"
proof -
  let ?b1 = "broker_of [order_buy, order_sell]"
  let ?run1 = "execute_orders ?b1 (Some snap_abc_xyz) tuesday 100000"
  let ?b2 = "broker_of [order_buy, order_sell_unlisted]"
  let ?run2 = "execute_orders ?b2 (Some snap_abc_xyz) tuesday 100000"
  note day = example_days(2)
  have run1: "?run1 = (fst ?run1, snd ?run1)" by simp
  have run2: "?run2 = (fst ?run2, snd ?run2)" by simp
  have res1: "fst ?run1 = Inr [fill_sell, fill_buy]" by (simp add: run_simps)
  have f1: "fills_of ?b1 (Some snap_abc_xyz) tuesday 100000 (order_book ?b1 SELL OPEN)
              = [fill_sell]"
    and f2: "fills_of ?b1 (Some snap_abc_xyz) tuesday 100000 (order_book ?b1 BUY OPEN)
              = [fill_buy]"
    by (simp_all add: fills_of_def run_simps)
  from C6_sell_bucket_before_buy_bucket [OF day run1 example_opens_defined] res1 f1 f2
  have a: "fst ?run1 = Inr ([fill_sell] @ [fill_buy])" by simp
  have mem: "order_sell_unlisted \<in> set (order_book ?b2 SELL OPEN)" by (simp add: run_simps)
  have ev: "evaluate_order ?b2 (Some snap_abc_xyz) tuesday 100000 order_sell_unlisted
              = Inl (KeyError ''QQQ'')" by (simp add: run_simps)
  have buy: "order_book ?b2 BUY OPEN = [order_buy]" by (simp add: run_simps)
  from C6_sell_bucket_before_buy_bucket [OF day run2 example_opens_defined] mem ev
  have "order_book (snd ?run2) BUY = order_book ?b2 BUY" by blast
  with buy have b: "order_book (snd ?run2) BUY OPEN = [order_buy]" by simp
  have c: "fst ?run2 = Inl (KeyError ''QQQ'')" by (simp add: run_simps)
  from day a ev b c show ?thesis by simp
qed

text \<open>
  C7, the code at a concrete input. An order with an empty ticker and a quantity of -5
  is appended to the OPEN list like any other; \<open>place_order\<close> has no failing branch.
\<close>

theorem C7_code_accepts_any_order:
  "ticker order_invalid = [] \<and> quantity order_invalid = - 5
   \<and> order_book (place_order (BacktestBroker_init flat_fee) order_invalid) BUY OPEN
       = [order_invalid]"
  by (simp add: place_order_def BacktestBroker_init_def order_invalid_def new_order_def)

text \<open>
  C8 as stated fails: a due order for a ticker the snapshot does not list makes the call
  end with \<open>KeyError\<close>; the order after it, which would fill, is not evaluated and
  nothing is completed.
\<close>

theorem C8_counterexample:
  "is_business_day tuesday = Inr True
   \<and> snap_abc_xyz (ticker order_unlisted) = None
   \<and> fst (execute_orders (broker_of [order_unlisted, order_buy]) (Some snap_abc_xyz) tuesday
            100000) = Inl (KeyError ''QQQ'')
   \<and> order_book (snd (execute_orders (broker_of [order_unlisted, order_buy])
                         (Some snap_abc_xyz) tuesday 100000)) BUY OPEN
       = [order_unlisted, order_buy]
   \<and> order_book (snd (execute_orders (broker_of [order_unlisted, order_buy])
                         (Some snap_abc_xyz) tuesday 100000)) BUY COMPLETE = []"
  by (simp add: example_days) (simp add: run_simps)

text \<open>
  C8, amended. On a business day, when some due order of an OPEN list has a ticker that
  the snapshot does not list (and the snapshot has no \<open>"from Open"\<close> of -1), the call
  does not return a list: it ends with the \<open>KeyError\<close> of a ticker that is not listed,
  and that order is still in its OPEN list afterwards.
\<close>

theorem C8_missing_ticker_aborts_call:
  assumes "is_business_day d = Inr True"
    and "ord \<in> set (order_book b act OPEN)"
    and "initiated_at ord < d"
    and "snap (ticker ord) = None"
    and "\<forall>q \<in> ran snap. 1 + from_Open q \<noteq> 0"
  shows "\<exists>tk b'. execute_orders b (Some snap) d cash = (Inl (KeyError tk), b')
            \<and> snap tk = None \<and> ord \<in> set (order_book b' act OPEN)"
proof -
  obtain r b' where run: "execute_orders b (Some snap) d cash = (r, b')"
    by (cases "execute_orders b (Some snap) d cash")
  have ev: "evaluate_order b (Some snap) d cash ord = Inl (KeyError (ticker ord))"
    using assms(3,4) by (rule evaluate_order_missing)
  have "\<exists>e. r = Inl e"
  proof (cases r)
    case (Inr ex)
    with run have "execute_orders b (Some snap) d cash = (Inr ex, b')" by simp
    from execute_orders_returns(4) [OF this assms(1,2)] ev show ?thesis by simp
  qed simp
  then obtain e where r: "r = Inl e" ..
  with run have raised: "execute_orders b (Some snap) d cash = (Inl e, b')" by simp
  from execute_orders_raises [OF raised assms(1)] obtain x where
    "evaluate_order b (Some snap) d cash x = Inl e" by blast
  from evaluate_order_raises [OF this] assms(5)
  have e: "e = KeyError (ticker x) \<and> snap (ticker x) = None"
    by (auto simp: ran_def)
  from ev have "\<forall>p. evaluate_order b (Some snap) d cash ord \<noteq> Inr (Some p)" by simp
  with execute_orders_frame(3) [OF run assms(2)]
  have "ord \<in> set (order_book b' act OPEN)" by simp
  with raised e show ?thesis by blast
qed

text \<open>
  The amended statement on the book of the counterexample.
\<close>

theorem C8_witness:
  "is_business_day tuesday = Inr True
   \<and> order_unlisted \<in> set (order_book (broker_of [order_unlisted, order_buy]) BUY OPEN)
   \<and> initiated_at order_unlisted < tuesday
   \<and> snap_abc_xyz (ticker order_unlisted) = None
   \<and> (\<exists>tk b'. execute_orders (broker_of [order_unlisted, order_buy]) (Some snap_abc_xyz)
                 tuesday 100000 = (Inl (KeyError tk), b')
          \<and> snap_abc_xyz tk = None \<and> order_unlisted \<in> set (order_book b' BUY OPEN))"
proof -
  note day = example_days(2)
  have mem: "order_unlisted \<in> set (order_book (broker_of [order_unlisted, order_buy]) BUY OPEN)"
    by (simp add: run_simps)
  have due: "initiated_at order_unlisted < tuesday" by (simp add: run_simps)
  have miss: "snap_abc_xyz (ticker order_unlisted) = None" by (simp add: run_simps)
  have fin: "\<forall>q \<in> ran snap_abc_xyz. 1 + from_Open q \<noteq> 0"
    using example_opens_defined by (simp add: opens_defined_def)
  from C8_missing_ticker_aborts_call [OF day mem due miss fin, of 100000] day mem due miss
  show ?thesis by simp
qed

text \<open>
  C9 as stated fails: on a weekday for which there is no snapshot (Labor Day; the data
  feed returned \<open>None\<close>, or a frame without rows), the call does not return the empty
  list but raises at the first due order.
\<close>

theorem C9_counterexample:
  "is_business_day labor_day = Inr True
   \<and> fst (execute_orders (broker_of [order_buy]) None labor_day 100000) = Inl AttributeError
   \<and> fst (execute_orders (broker_of [order_buy]) (Some Map.empty) labor_day 100000)
       = Inl (KeyError ''ABC'')"
  by (simp add: example_days) (simp add: run_simps)

text \<open>
  C9, amended. For every call whose date is a Saturday or a Sunday that a timestamp can
  hold (1677-09-22 to 2262-04-11), \<open>execute_orders\<close> returns the empty list at once and
  the broker, its order book included, is unchanged, whatever was passed as snapshot.
\<close>

theorem C9_weekend_returns_empty:
  assumes "Timestamp_min \<le> d" and "d \<le> Timestamp_max"
    and "weekday d = 5 \<or> weekday d = 6"
  shows "execute_orders b data d cash = (Inr [], b)"
proof (rule execute_orders_weekend)
  from assms(3) have "\<not> weekday d < 5" by auto
  with is_business_day_iff [OF assms(1,2)] show "is_business_day d = Inr False" by simp
qed

text \<open>
  A Saturday call with a due order that would fill on a weekday, and a Sunday call
  without a snapshot.
\<close>

theorem C9_witness:
  "Timestamp_min \<le> saturday \<and> saturday \<le> Timestamp_max
   \<and> (weekday saturday = 5 \<or> weekday saturday = 6)
   \<and> order_book (broker_of [order_buy]) BUY OPEN = [order_buy]
   \<and> execute_orders (broker_of [order_buy]) (Some snap_abc_xyz) saturday 100000
       = (Inr [], broker_of [order_buy])
   \<and> execute_orders (broker_of [order_buy]) None sunday 100000
       = (Inr [], broker_of [order_buy])"
proof -
  have lo: "Timestamp_min \<le> saturday" "Timestamp_min \<le> sunday"
    and hi: "saturday \<le> Timestamp_max" "sunday \<le> Timestamp_max"
    by (simp_all add: Timestamp_min_def Timestamp_max_def saturday_def sunday_def)
  have sat: "weekday saturday = 5 \<or> weekday saturday = 6"
    and sun: "weekday sunday = 5 \<or> weekday sunday = 6"
    by (simp_all add: weekday_def saturday_def sunday_def)
  have "order_book (broker_of [order_buy]) BUY OPEN = [order_buy]" by (simp add: run_simps)
  with C9_weekend_returns_empty [OF lo(1) hi(1) sat]
    C9_weekend_returns_empty [OF lo(2) hi(2) sun] lo hi sat
  show ?thesis by simp
qed

text \<open>
  C10 as stated fails: 3 January 1600 is a Monday, but no timestamp can hold it;
  \<open>is_business_day\<close> raises \<open>OutOfBoundsDatetime\<close> and so does \<open>execute_orders\<close>.
\<close>

theorem C10_counterexample:
  "weekday monday_1600 = 0
   \<and> is_business_day monday_1600 = Inl OutOfBoundsDatetime
   \<and> fst (execute_orders (broker_of [order_buy]) (Some snap_abc_xyz) monday_1600 100000)
       = Inl OutOfBoundsDatetime"
  by (simp add: example_days execute_orders_def) (simp add: weekday_def monday_1600_def)

text \<open>
  C10, amended. On every date that a timestamp can hold (1677-09-22 to 2262-04-11),
  \<open>is_business_day\<close> is true if the date falls on Monday to Friday and false exactly if
  it falls on a Saturday or a Sunday; on every such weekday \<open>execute_orders\<close> goes on
  to the loops over the open orders. There is no holiday calendar.
\<close>

theorem C10_every_weekday_is_a_trading_day:
  assumes "Timestamp_min \<le> d" and "d \<le> Timestamp_max"
  shows "(weekday d \<in> {0, 1, 2, 3, 4} \<longrightarrow>
            is_business_day d = Inr True
            \<and> execute_orders b data d cash = action_loop data d cash [SELL, BUY] ([], b))
       \<and> (is_business_day d = Inr False \<longleftrightarrow> weekday d = 5 \<or> weekday d = 6)"
proof -
  have "0 \<le> weekday d" and "weekday d < 7" using weekday_range by simp_all
  then have "(weekday d \<in> {0, 1, 2, 3, 4}) = (weekday d < 5)"
    and "(weekday d = 5 \<or> weekday d = 6) = (\<not> weekday d < 5)" by auto
  with is_business_day_iff [OF assms] show ?thesis
    by (simp add: execute_orders_def Action_members_def)
qed

text \<open>
  Labor Day 2021, a Monday on which the exchanges were closed: the call evaluates the
  open order and fills it. The seven days of the first week of August 2021.
\<close>

theorem C10_witness:
  "Timestamp_min \<le> labor_day \<and> labor_day \<le> Timestamp_max
   \<and> weekday labor_day \<in> {0, 1, 2, 3, 4}
   \<and> is_business_day labor_day = Inr True
   \<and> fst (execute_orders (broker_of [order_buy]) (Some snap_abc_xyz) labor_day 100000)
       = Inr [filled_order (broker_of []) labor_day order_buy 50]
   \<and> map weekday [monday, tuesday, wednesday, thursday, friday] = [0, 1, 2, 3, 4]
   \<and> map is_business_day [monday, tuesday, wednesday, thursday, friday]
       = [Inr True, Inr True, Inr True, Inr True, Inr True]
   \<and> map weekday [saturday, sunday] = [5, 6]
   \<and> map is_business_day [saturday, sunday] = [Inr False, Inr False]"
proof -
  have bounds: "Timestamp_min \<le> labor_day" "labor_day \<le> Timestamp_max"
    "Timestamp_min \<le> monday" "monday \<le> Timestamp_max"
    "Timestamp_min \<le> tuesday" "tuesday \<le> Timestamp_max"
    "Timestamp_min \<le> wednesday" "wednesday \<le> Timestamp_max"
    "Timestamp_min \<le> thursday" "thursday \<le> Timestamp_max"
    "Timestamp_min \<le> friday" "friday \<le> Timestamp_max"
    "Timestamp_min \<le> saturday" "saturday \<le> Timestamp_max"
    "Timestamp_min \<le> sunday" "sunday \<le> Timestamp_max"
    by (simp_all add: Timestamp_min_def Timestamp_max_def labor_day_def monday_def
          tuesday_def wednesday_def thursday_def friday_def saturday_def sunday_def)
  have wd: "weekday labor_day = 0" "weekday monday = 0" "weekday tuesday = 1"
    "weekday wednesday = 2" "weekday thursday = 3" "weekday friday = 4"
    "weekday saturday = 5" "weekday sunday = 6"
    by (simp_all add: weekday_def labor_day_def monday_def tuesday_def wednesday_def
          thursday_def friday_def saturday_def sunday_def)
  have res: "fst (execute_orders (broker_of [order_buy]) (Some snap_abc_xyz) labor_day 100000)
       = Inr [filled_order (broker_of []) labor_day order_buy 50]"
    by (simp add: run_simps)
  from C10_every_weekday_is_a_trading_day [OF bounds(1,2)]
    C10_every_weekday_is_a_trading_day [OF bounds(3,4)]
    C10_every_weekday_is_a_trading_day [OF bounds(5,6)]
    C10_every_weekday_is_a_trading_day [OF bounds(7,8)]
    C10_every_weekday_is_a_trading_day [OF bounds(9,10)]
    C10_every_weekday_is_a_trading_day [OF bounds(11,12)]
    C10_every_weekday_is_a_trading_day [OF bounds(13,14)]
    C10_every_weekday_is_a_trading_day [OF bounds(15,16)]
    wd bounds(1,2) res
  show ?thesis by simp
qed

end
